theory Spec2Isabelle
  imports Main "HOL-Library.Word"
begin

unbundle bit_operations_syntax

section \<open>JavaScript values\<close>

subsection \<open>Strings\<close>

text \<open>
  A JavaScript string is a sequence of 16-bit code units. The literals of the program are
  ASCII; \<open>js\<close> embeds such a literal, one code unit for each character.
\<close>

type_synonym jsstring = "16 word list"

definition js :: "string \<Rightarrow> jsstring" where
  "js s = map of_char s"

definition is_lead :: "16 word \<Rightarrow> bool" where
  "is_lead c = (0xD800 \<le> c \<and> c \<le> 0xDBFF)"

definition is_trail :: "16 word \<Rightarrow> bool" where
  "is_trail c = (0xDC00 \<le> c \<and> c \<le> 0xDFFF)"

subsection \<open>Ordinary objects\<close>

text \<open>
  An ordinary object is the list of its own properties in the order of their creation,
  which is the order in which \<open>JSON.stringify\<close> writes them when no key is an array
  index; the objects that the program serialises have the keys \<open>message\<close> and \<open>id\<close>.
  The objects of the program are written as literals or built by \<open>Object.fromEntries\<close>,
  so each of them has \<open>Object.prototype\<close> as its prototype: reading a key that is no own
  property finds the members of \<open>Object.prototype\<close>, and \<open>undefined\<close> only after that.
\<close>

type_synonym 'v object = "(jsstring \<times> 'v) list"

datatype 'v jsvalue = Undefined | Val 'v | Inherited jsstring

definition Object_prototype_keys :: "jsstring list" where
  "Object_prototype_keys = map js
     [''constructor'', ''__defineGetter__'', ''__defineSetter__'', ''hasOwnProperty'',
      ''__lookupGetter__'', ''__lookupSetter__'', ''isPrototypeOf'',
      ''propertyIsEnumerable'', ''toString'', ''valueOf'', ''__proto__'',
      ''toLocaleString'']"

definition Get :: "'v object \<Rightarrow> jsstring \<Rightarrow> 'v jsvalue" where
  "Get obj k =
     (case map_of obj k of
        Some v \<Rightarrow> Val v
      | None \<Rightarrow> if k \<in> set Object_prototype_keys then Inherited k else Undefined)"

text \<open>
  \<open>obj[k] = v\<close>, and \<open>CreateDataProperty\<close>: an own property keeps its place and takes
  the new value, a new key goes to the end.
\<close>

fun put :: "'v object \<Rightarrow> jsstring \<Rightarrow> 'v \<Rightarrow> 'v object" where
  "put [] k v = [(k, v)]"
| "put (p # ps) k v = (if fst p = k then (k, v) # ps else p # put ps k v)"

definition Object_fromEntries :: "(jsstring \<times> 'v) list \<Rightarrow> 'v object" where
  "Object_fromEntries entries = foldl (\<lambda>obj (k, v). put obj k v) [] entries"

text \<open>Truthiness of a value read from an object whose own values are strings.\<close>

fun falsy :: "jsstring jsvalue \<Rightarrow> bool" where
  "falsy Undefined = True"
| "falsy (Val s) = (s = [])"
| "falsy (Inherited k) = False"

section \<open>The platform\<close>

subsection \<open>\<open>Buffer.byteLength\<close> and the bytes of a written string\<close>

text \<open>
  \<open>Buffer.byteLength(s, 'utf8')\<close> counts the bytes of the UTF-8 form of \<open>s\<close> without
  building it: a surrogate pair is one code point of four bytes, a surrogate without its
  partner counts as U+FFFD.
\<close>

fun Buffer_byteLength :: "jsstring \<Rightarrow> nat" where
  "Buffer_byteLength [] = 0"
| "Buffer_byteLength [c] = (if c < 0x80 then 1 else if c < 0x800 then 2 else 3)"
| "Buffer_byteLength (c # d # s) =
     (if c < 0x80 then 1 + Buffer_byteLength (d # s)
      else if c < 0x800 then 2 + Buffer_byteLength (d # s)
      else if is_lead c \<and> is_trail d then 4 + Buffer_byteLength s
      else 3 + Buffer_byteLength (d # s))"

text \<open>
  \<open>response.write(s)\<close> with a string sends its UTF-8 form. \<open>utf8_unit\<close> encodes a code
  unit that stands alone, \<open>utf8_pair\<close> the code point of a surrogate pair.
\<close>

definition utf8_unit :: "16 word \<Rightarrow> 8 word list" where
  "utf8_unit c =
     (if c < 0x80 then [ucast c]
      else if c < 0x800 then [0xC0 OR ucast (drop_bit 6 c), 0x80 OR ucast (c AND 0x3F)]
      else if is_lead c \<or> is_trail c then [0xEF, 0xBF, 0xBD]
      else [0xE0 OR ucast (drop_bit 12 c), 0x80 OR ucast (drop_bit 6 c AND 0x3F),
            0x80 OR ucast (c AND 0x3F)])"

definition utf8_pair :: "16 word \<Rightarrow> 16 word \<Rightarrow> 8 word list" where
  "utf8_pair c d =
     (let cp = (0x10000 :: 32 word) + push_bit 10 (ucast (c - 0xD800)) + ucast (d - 0xDC00)
      in [0xF0 OR ucast (drop_bit 18 cp), 0x80 OR ucast (drop_bit 12 cp AND 0x3F),
          0x80 OR ucast (drop_bit 6 cp AND 0x3F), 0x80 OR ucast (cp AND 0x3F)])"

fun utf8_encode :: "jsstring \<Rightarrow> 8 word list" where
  "utf8_encode [] = []"
| "utf8_encode [c] = utf8_unit c"
| "utf8_encode (c # d # s) =
     (if is_lead c \<and> is_trail d then utf8_pair c d @ utf8_encode s
      else utf8_unit c @ utf8_encode (d # s))"

subsection \<open>\<open>JSON.stringify\<close>\<close>

text \<open>
  \<open>QuoteJSONString\<close> of ECMAScript: the seven characters with a short escape, then the
  other control characters and the surrogates without partner as \<open>\u\<close> and four lower
  case hexadecimal digits, and every other code point as it is.
\<close>

definition hex_digit :: "16 word \<Rightarrow> 16 word" where
  "hex_digit n = (if n < 10 then 0x30 + n else 0x61 + (n - 10))"

definition UnicodeEscape :: "16 word \<Rightarrow> jsstring" where
  "UnicodeEscape c =
     [0x5C, 0x75, hex_digit (drop_bit 12 c), hex_digit (drop_bit 8 c AND 0xF),
      hex_digit (drop_bit 4 c AND 0xF), hex_digit (c AND 0xF)]"

definition short_escape :: "16 word \<Rightarrow> 16 word option" where
  "short_escape c =
     (if c = 0x08 then Some 0x62
      else if c = 0x09 then Some 0x74
      else if c = 0x0A then Some 0x6E
      else if c = 0x0C then Some 0x66
      else if c = 0x0D then Some 0x72
      else if c = 0x22 then Some 0x22
      else if c = 0x5C then Some 0x5C
      else None)"

fun quote_chars :: "jsstring \<Rightarrow> jsstring" where
  "quote_chars [] = []"
| "quote_chars (c # s) =
     (case short_escape c of
        Some e \<Rightarrow> 0x5C # e # quote_chars s
      | None \<Rightarrow>
          if c < 0x20 then UnicodeEscape c @ quote_chars s
          else if is_lead c then
            (case s of
               [] \<Rightarrow> UnicodeEscape c
             | d # s' \<Rightarrow>
                 if is_trail d then c # d # quote_chars s'
                 else UnicodeEscape c @ quote_chars s)
          else if is_trail c then UnicodeEscape c @ quote_chars s
          else c # quote_chars s)"

definition QuoteJSONString :: "jsstring \<Rightarrow> jsstring" where
  "QuoteJSONString s = 0x22 # quote_chars s @ [0x22]"

fun join :: "jsstring \<Rightarrow> jsstring list \<Rightarrow> jsstring" where
  "join sep [] = []"
| "join sep [x] = x"
| "join sep (x # y # xs) = x @ sep @ join sep (y # xs)"

text \<open>
  \<open>JSON.stringify\<close> of an object whose own properties are strings, without indentation:
  the members in the order of the properties, separated by commas.
\<close>

definition JSON_stringify :: "jsstring object \<Rightarrow> jsstring" where
  "JSON_stringify object =
     js ''{'' @ join (js '','')
       (map (\<lambda>(k, v). QuoteJSONString k @ js '':'' @ QuoteJSONString v) object) @ js ''}''"

subsection \<open>The \<open>URL\<close> constructor\<close>

text \<open>
  Of the object that \<open>new URL\<close> returns the program reads \<open>pathname\<close> and
  \<open>searchParams\<close>. The path of a URL with an authority is a list of segments, and
  \<open>pathname\<close> writes a slash before each of them; \<open>searchParams\<close> is the list of the
  pairs of the query, in the order of the query, a repeated key as often as it occurs.
  Every URL of the program has an authority: the base has the scheme \<open>http\<close> or
  \<open>https\<close>, and the HTTP parser of Node passes on a request target only if it begins
  with a slash, is an asterisk, or begins with a scheme and \<open>://\<close>.
\<close>

record URL =
  path :: "jsstring list"
  searchParams :: "(jsstring \<times> jsstring) list"

definition pathname :: "URL \<Rightarrow> jsstring" where
  "pathname u = concat (map (\<lambda>segment. js ''/'' @ segment) (path u))"

datatype error = Invalid_URL | Not_callable | Read_of_undefined

text \<open>
  The parser of the platform is a parameter of the model: it maps the reference and the
  base to the URL, or to \<open>None\<close> where it fails. One part of the parsing algorithm is
  written out. The input loses its leading and trailing C0 controls and spaces and all its
  tabs and newlines. Against a base of scheme \<open>http\<close> or \<open>https\<close>, a reference that
  begins with two slashes (a backslash counts as a slash) names a host after all the
  slashes that follow; the host ends at the end of the input, at \<open>?\<close> or at \<open>#\<close>, and an
  empty host is a failure. The constructor turns every failure into a \<open>TypeError\<close>.
\<close>

type_synonym url_parser = "jsstring \<Rightarrow> jsstring \<Rightarrow> URL option"

definition is_C0_control_or_space :: "16 word \<Rightarrow> bool" where
  "is_C0_control_or_space c = (c \<le> 0x20)"

definition is_tab_or_newline :: "16 word \<Rightarrow> bool" where
  "is_tab_or_newline c = (c = 0x09 \<or> c = 0x0A \<or> c = 0x0D)"

definition trim_input :: "jsstring \<Rightarrow> jsstring" where
  "trim_input input =
     filter (\<lambda>c. \<not> is_tab_or_newline c)
       (rev (dropWhile is_C0_control_or_space
          (rev (dropWhile is_C0_control_or_space input))))"

definition is_slash :: "16 word \<Rightarrow> bool" where
  "is_slash c = (c = 0x2F \<or> c = 0x5C)"

definition host_missing :: "jsstring \<Rightarrow> bool" where
  "host_missing s =
     (case s of
        c # d # rest \<Rightarrow>
          is_slash c \<and> is_slash d \<and>
          (case dropWhile is_slash rest of
             [] \<Rightarrow> True
           | e # _ \<Rightarrow> e = 0x3F \<or> e = 0x23)
      | _ \<Rightarrow> False)"

definition starts_with :: "jsstring \<Rightarrow> jsstring \<Rightarrow> bool" where
  "starts_with s p = (take (length p) s = p)"

definition URL_new :: "url_parser \<Rightarrow> jsstring \<Rightarrow> jsstring \<Rightarrow> error + URL" where
  "URL_new parse input base =
     (if (starts_with base (js ''http://'') \<or> starts_with base (js ''https://''))
         \<and> host_missing (trim_input input)
      then Inl Invalid_URL
      else case parse input base of None \<Rightarrow> Inl Invalid_URL | Some u \<Rightarrow> Inr u)"

subsection \<open>Requests and responses\<close>

text \<open>
  Of the request the program reads the URL, the \<open>Host\<close> header and whether the
  connection is encrypted, and it writes \<open>query\<close>, which is \<open>undefined\<close> before. A
  missing \<open>Host\<close> header reads as \<open>undefined\<close>, which a template literal prints as
  that word.
\<close>

record request =
  request_method :: jsstring
  url :: jsstring
  headers_host :: "jsstring option"
  connection_encrypted :: bool
  query :: "jsstring object option"

text \<open>The response object is the list of the calls made on it, the latest last.\<close>

datatype header_value = HString jsstring | HNumber nat

datatype call = WriteHead nat "header_value object" | Write jsstring | End

type_synonym response = "call list"

type_synonym handler = "request \<Rightarrow> response \<Rightarrow> error + response"

section \<open>The JSON responses\<close>

definition respondJSON :: "request \<Rightarrow> response \<Rightarrow> nat \<Rightarrow> jsstring object \<Rightarrow> response" where
  "respondJSON request response status object =
     (let content = JSON_stringify object;
          response = response @
            [WriteHead status
               [(js ''Content-Type'', HString (js ''application/json'')),
                (js ''Content-Length'', HNumber (Buffer_byteLength content))]];
          response = response @ [Write content]
      in response @ [End])"

definition success :: handler where
  "success request response =
     (let responseJSON = [(js ''message'', js ''This is a successful response'')]
      in Inr (respondJSON request response 200 responseJSON))"

definition badRequest :: handler where
  "badRequest request response =
     (let responseJSON = [(js ''message'', js ''This request has the required parameters'')]
      in case query request of
           None \<Rightarrow> Inl Read_of_undefined
         | Some q \<Rightarrow>
             if falsy (Get q (js ''valid'')) \<or> Get q (js ''valid'') \<noteq> Val (js ''true'')
             then
               let responseJSON =
                     put responseJSON (js ''message'')
                       (js ''Missing valid query parameter set to true'');
                   responseJSON = put responseJSON (js ''id'') (js ''badRequest'')
               in Inr (respondJSON request response 400 responseJSON)
             else Inr (respondJSON request response 200 responseJSON))"

definition notFound :: handler where
  "notFound request response =
     (let responseJSON =
            [(js ''message'', js ''The page you are looking for was not found.''),
             (js ''id'', js ''notFound'')]
      in Inr (respondJSON request response 404 responseJSON))"

section \<open>The dispatcher\<close>

text \<open>
  The route table holds references to four functions. \<open>getIndex\<close> comes from
  \<open>htmlResponses.js\<close>, a module that is not among the sources: it is a parameter of
  the model, a handler like the others.
\<close>

datatype handler_ref = GetIndex | Success | BadRequest | NotFound

definition invoke :: "handler \<Rightarrow> handler_ref \<Rightarrow> handler" where
  "invoke getIndex h =
     (case h of
        GetIndex \<Rightarrow> getIndex
      | Success \<Rightarrow> success
      | BadRequest \<Rightarrow> badRequest
      | NotFound \<Rightarrow> notFound)"

text \<open>
  The state of the module is the route table, an object that any code holding it could
  change. \<open>server_start\<close> is the table as the module builds it.
\<close>

record server =
  urlStruct :: "handler_ref object"

definition server_start :: server where
  "server_start =
     \<lparr>urlStruct =
        [(js ''/'', GetIndex),
         (js ''/success'', Success),
         (js ''/badRequest'', BadRequest),
         (js ''notFound'', NotFound)]\<rparr>"

text \<open>
  \<open>obj[k](request, response)\<close>. A member of \<open>Object.prototype\<close> called this way writes
  nothing, and three of them throw: \<open>__proto__\<close> is no function, and the two
  \<open>__define\<close> members want a function as second argument.
\<close>

definition call_member ::
  "handler \<Rightarrow> handler_ref object \<Rightarrow> jsstring \<Rightarrow> request \<Rightarrow> response \<Rightarrow> error + response" where
  "call_member getIndex obj k request response =
     (case Get obj k of
        Val h \<Rightarrow> invoke getIndex h request response
      | Inherited m \<Rightarrow>
          if m \<in> set (map js [''__proto__'', ''__defineGetter__'', ''__defineSetter__''])
          then Inl Not_callable
          else Inr response
      | Undefined \<Rightarrow> Inl Not_callable)"

text \<open>
  The first two statements of \<open>onRequest\<close>, the protocol and the URL against the base,
  are \<open>parsedUrl\<close>. \<open>onRequest\<close> gives the outcome of the call, which is the error
  thrown or the response object after it, and the state of the module after it. Every
  value that the route table can give for a key is a function or an object, so the test of
  the \<open>if\<close> fails for \<open>undefined\<close> only.
\<close>

definition parsedUrl :: "url_parser \<Rightarrow> request \<Rightarrow> error + URL" where
  "parsedUrl parse request =
     (let protocol = (if connection_encrypted request then js ''https'' else js ''http'');
          host = (case headers_host request of None \<Rightarrow> js ''undefined'' | Some h \<Rightarrow> h)
      in URL_new parse (url request) (protocol @ js ''://'' @ host))"

definition onRequest ::
  "url_parser \<Rightarrow> handler \<Rightarrow> server \<Rightarrow> request \<Rightarrow> response \<Rightarrow> (error + response) \<times> server" where
  "onRequest parse getIndex sv request response =
     (case parsedUrl parse request of
        Inl e \<Rightarrow> (Inl e, sv)
      | Inr u \<Rightarrow>
          let request = request\<lparr>query := Some (Object_fromEntries (searchParams u))\<rparr>
          in if Get (urlStruct sv) (pathname u) \<noteq> Undefined
             then (call_member getIndex (urlStruct sv) (pathname u) request response, sv)
             else (call_member getIndex (urlStruct sv) (js ''notFound'') request response, sv))"




section \<open>What a client receives\<close>

text \<open>
  A response is sent when the calls on the response object are one \<open>writeHead\<close>, one
  \<open>write\<close> and one \<open>end\<close>, in this order: \<open>sent\<close> gives its status, headers and body
  text, and nothing for any other outcome.
\<close>

fun sent :: "error + response \<Rightarrow> (nat \<times> header_value object \<times> jsstring) option" where
  "sent (Inr [WriteHead status headers, Write content, End]) = Some (status, headers, content)"
| "sent _ = None"

definition statusCode :: "error + response \<Rightarrow> nat option" where
  "statusCode out = map_option fst (sent out)"


text \<open>
  The page reads the body with \<open>response.json()\<close>. \<open>JSON_parse\<close> reads a JSON text that
  is an object of strings and has no white space between its tokens, which is what
  \<open>JSON.stringify\<close> writes for the objects of this program; it gives nothing for any
  other text. A key that occurs again replaces the value of its first occurrence.
\<close>

datatype token = LBrace | RBrace | Colon | Comma | Str jsstring

definition unhex :: "16 word \<Rightarrow> 16 word option" where
  "unhex c =
     (if 0x30 \<le> c \<and> c \<le> 0x39 then Some (c - 0x30)
      else if 0x61 \<le> c \<and> c \<le> 0x66 then Some (c - 0x61 + 10)
      else if 0x41 \<le> c \<and> c \<le> 0x46 then Some (c - 0x41 + 10)
      else None)"

definition unescape :: "16 word \<Rightarrow> 16 word option" where
  "unescape e =
     (if e = 0x22 \<or> e = 0x5C \<or> e = 0x2F then Some e
      else if e = 0x62 then Some 0x08
      else if e = 0x66 then Some 0x0C
      else if e = 0x6E then Some 0x0A
      else if e = 0x72 then Some 0x0D
      else if e = 0x74 then Some 0x09
      else None)"

definition unhex4 :: "16 word \<Rightarrow> 16 word \<Rightarrow> 16 word \<Rightarrow> 16 word \<Rightarrow> 16 word option" where
  "unhex4 a b c d =
     (case (unhex a, unhex b, unhex c, unhex d) of
        (Some a', Some b', Some c', Some d') \<Rightarrow>
          Some (push_bit 12 a' OR push_bit 8 b' OR push_bit 4 c' OR d')
      | _ \<Rightarrow> None)"

text \<open>
  The first argument of \<open>lex\<close> is \<open>None\<close> between tokens and, inside a string, the
  characters read so far, the latest first.
\<close>

fun lex :: "jsstring option \<Rightarrow> jsstring \<Rightarrow> token list option" where
  "lex None [] = Some []"
| "lex (Some acc) [] = None"
| "lex None (c # s) =
     (if c = 0x22 then lex (Some []) s
      else if c = 0x7B then map_option ((#) LBrace) (lex None s)
      else if c = 0x7D then map_option ((#) RBrace) (lex None s)
      else if c = 0x3A then map_option ((#) Colon) (lex None s)
      else if c = 0x2C then map_option ((#) Comma) (lex None s)
      else None)"
| "lex (Some acc) (c # s) =
     (if c = 0x22 then map_option ((#) (Str (rev acc))) (lex None s)
      else if c < 0x20 then None
      else if c = 0x5C then
        (case s of
           [] \<Rightarrow> None
         | e # s' \<Rightarrow>
             if e = 0x75 then
               (case s' of
                  h1 # h2 # h3 # h4 # s'' \<Rightarrow>
                    (case unhex4 h1 h2 h3 h4 of
                       None \<Rightarrow> None
                     | Some u \<Rightarrow> lex (Some (u # acc)) s'')
                | _ \<Rightarrow> None)
             else
               (case unescape e of
                  None \<Rightarrow> None
                | Some u \<Rightarrow> lex (Some (u # acc)) s'))
      else lex (Some (c # acc)) s)"

fun members :: "token list \<Rightarrow> (jsstring \<times> jsstring) list option" where
  "members [Str k, Colon, Str v, RBrace] = Some [(k, v)]"
| "members (Str k # Colon # Str v # Comma # ts) = map_option ((#) (k, v)) (members ts)"
| "members _ = None"

definition JSON_parse :: "jsstring \<Rightarrow> jsstring object option" where
  "JSON_parse text =
     (case lex None text of
        None \<Rightarrow> None
      | Some [LBrace, RBrace] \<Rightarrow> Some []
      | Some (LBrace # ts) \<Rightarrow> map_option Object_fromEntries (members ts)
      | Some _ \<Rightarrow> None)"

definition payload :: "error + response \<Rightarrow> jsstring object option" where
  "payload out =
     (case sent out of
        None \<Rightarrow> None
      | Some (status, headers, content) \<Rightarrow> JSON_parse content)"

text \<open>The value of a field of the object in the body, as the page reads \<open>message\<close>.\<close>

definition field :: "jsstring \<Rightarrow> error + response \<Rightarrow> jsstring option" where
  "field k out = (case payload out of None \<Rightarrow> None | Some obj \<Rightarrow> map_of obj k)"

section \<open>Running the model\<close>

text \<open>
  To run the dispatcher on a request, the parameters need values. \<open>plain_URL\<close> stands
  for the parser on references that are a path of segments and a query of pairs, all of
  letters, digits, \<open>-\<close>, \<open>_\<close> and \<open>~\<close>: on these the platform neither encodes nor decodes
  anything. It gives \<open>None\<close> for every other reference and is used on plain references
  only. \<open>static_page\<close> stands for \<open>getIndex\<close>: a handler that sends a fixed page.
\<close>

definition plain_char :: "16 word \<Rightarrow> bool" where
  "plain_char c =
     (0x30 \<le> c \<and> c \<le> 0x39 \<or> 0x41 \<le> c \<and> c \<le> 0x5A \<or> 0x61 \<le> c \<and> c \<le> 0x7A
      \<or> c = 0x2D \<or> c = 0x5F \<or> c = 0x7E)"

fun split :: "16 word \<Rightarrow> jsstring \<Rightarrow> jsstring list" where
  "split sep [] = [[]]"
| "split sep (c # s) =
     (if c = sep then [] # split sep s
      else case split sep s of [] \<Rightarrow> [[c]] | x # xs \<Rightarrow> (c # x) # xs)"

definition plain_URL :: url_parser where
  "plain_URL input base =
     (let p = takeWhile (\<lambda>c. c \<noteq> 0x3F) input;
          q = drop 1 (dropWhile (\<lambda>c. c \<noteq> 0x3F) input)
      in if starts_with p (js ''/'') \<and> \<not> starts_with p (js ''//'')
            \<and> list_all (\<lambda>c. plain_char c \<or> c = 0x2F) p
            \<and> list_all (\<lambda>c. plain_char c \<or> c = 0x26 \<or> c = 0x3D) q
         then Some
           \<lparr>path = tl (split 0x2F p),
            searchParams =
              map (\<lambda>pair. (takeWhile (\<lambda>c. c \<noteq> 0x3D) pair,
                            drop 1 (dropWhile (\<lambda>c. c \<noteq> 0x3D) pair)))
                (filter (\<lambda>pair. pair \<noteq> []) (split 0x26 q))\<rparr>
         else None)"

definition static_page :: "jsstring \<Rightarrow> handler" where
  "static_page content request response =
     Inr (response @
       [WriteHead 200
          [(js ''Content-Type'', HString (js ''text/html'')),
           (js ''Content-Length'', HNumber (Buffer_byteLength content))],
        Write content, End])"

definition browser_request :: "string \<Rightarrow> string \<Rightarrow> request" where
  "browser_request m target =
     \<lparr>request_method = js m, url = js target, headers_host = Some (js ''127.0.0.1:3000''),
      connection_encrypted = False, query = None\<rparr>"

section \<open>Properties of the platform functions\<close>

text \<open>Different literals are different strings.\<close>

lemma unat_of_char: "unat (of_char c :: 16 word) = of_char c"
proof -
  have "(of_char c :: nat) < 2 ^ 16"
    by (rule less_trans [OF nat_of_char_less_256]) simp
  then have "unat (of_nat (of_char c) :: 16 word) = of_char c"
    by (simp add: unat_of_nat)
  then show ?thesis by (simp only: of_nat_of_char)
qed

lemma js_eq_iff: "js s = js t \<longleftrightarrow> s = t"
proof
  assume "js s = js t"
  then have "map unat (js s) = map unat (js t)" by simp
  then have "map (of_char :: char \<Rightarrow> nat) s = map of_char t"
    by (simp add: js_def unat_of_char comp_def)
  then show "s = t"
    by (simp add: inj_on_def)
qed simp

lemma length_utf8_unit:
  "length (utf8_unit c) = (if c < 0x80 then 1 else if c < 0x800 then 2 else 3)"
  by (simp add: utf8_unit_def)

lemma length_utf8_pair: "length (utf8_pair c d) = 4"
  by (simp add: utf8_pair_def Let_def)

lemma lead_not_low: "is_lead c \<Longrightarrow> \<not> c < 0x800 \<and> \<not> c < 0x80"
  unfolding is_lead_def by (simp add: word_le_nat_alt word_less_nat_alt)

text \<open>The count of \<open>Buffer.byteLength\<close> is the number of bytes that \<open>write\<close> sends.\<close>

lemma length_utf8_encode: "length (utf8_encode s) = Buffer_byteLength s"
proof (induction s rule: utf8_encode.induct)
  case 1
  show ?case by simp
next
  case (2 c)
  show ?case by (simp add: length_utf8_unit)
next
  case (3 c d s)
  show ?case
  proof (cases "is_lead c \<and> is_trail d")
    case True
    with 3 lead_not_low [of c] show ?thesis by (simp add: length_utf8_pair)
  next
    case False
    with 3 show ?thesis by (auto simp: length_utf8_unit)
  qed
qed

lemmas quote_simps =
  JSON_stringify_def js_def QuoteJSONString_def short_escape_def is_lead_def is_trail_def

text \<open>The four bodies of the program, as texts and read back.\<close>

lemma text_success:
  \<open>JSON_stringify [(js ''message'', js ''This is a successful response'')] =
     js ''{"message":"This is a successful response"}''\<close>
  by (simp add: quote_simps)

lemma text_has_parameters:
  \<open>JSON_stringify [(js ''message'', js ''This request has the required parameters'')] =
     js ''{"message":"This request has the required parameters"}''\<close>
  by (simp add: quote_simps)

lemma text_missing_valid:
  \<open>JSON_stringify
     [(js ''message'', js ''Missing valid query parameter set to true''),
      (js ''id'', js ''badRequest'')] =
     js ''{"message":"Missing valid query parameter set to true","id":"badRequest"}''\<close>
  by (simp add: quote_simps)

lemma text_not_found:
  \<open>JSON_stringify
     [(js ''message'', js ''The page you are looking for was not found.''),
      (js ''id'', js ''notFound'')] =
     js ''{"message":"The page you are looking for was not found.","id":"notFound"}''\<close>
  by (simp add: quote_simps)

lemma parse_success:
  \<open>JSON_parse (js ''{"message":"This is a successful response"}'') =
     Some [(js ''message'', js ''This is a successful response'')]\<close>
  by code_simp

lemma parse_has_parameters:
  \<open>JSON_parse (js ''{"message":"This request has the required parameters"}'') =
     Some [(js ''message'', js ''This request has the required parameters'')]\<close>
  by code_simp

lemma parse_missing_valid:
  \<open>JSON_parse
     (js ''{"message":"Missing valid query parameter set to true","id":"badRequest"}'') =
     Some [(js ''message'', js ''Missing valid query parameter set to true''),
           (js ''id'', js ''badRequest'')]\<close>
  by code_simp

lemma parse_not_found:
  \<open>JSON_parse
     (js ''{"message":"The page you are looking for was not found.","id":"notFound"}'') =
     Some [(js ''message'', js ''The page you are looking for was not found.''),
           (js ''id'', js ''notFound'')]\<close>
  by code_simp

lemma statusCode_sent: "statusCode (Inr [WriteHead st hs, Write b, End]) = Some st"
  by (simp add: statusCode_def)

lemma payload_sent: "payload (Inr [WriteHead st hs, Write b, End]) = JSON_parse b"
  by (simp add: payload_def)

lemma field_sent:
  "field k (Inr [WriteHead st hs, Write b, End]) =
     (case JSON_parse b of None \<Rightarrow> None | Some obj \<Rightarrow> map_of obj k)"
  by (simp add: field_def payload_def)

text \<open>\<open>put\<close> keeps the keys distinct, and \<open>Object.fromEntries\<close> binds each key to its last value.\<close>

lemma map_of_put: "map_of (put obj k v) = (map_of obj)(k \<mapsto> v)"
  by (induction obj) (auto simp: fun_eq_iff)

lemma keys_put: "fst ` set (put obj k v) = insert k (fst ` set obj)"
  by (induction obj) auto

lemma distinct_put: "distinct (map fst obj) \<Longrightarrow> distinct (map fst (put obj k v))"
proof (induction obj)
  case Nil
  show ?case by simp
next
  case (Cons p ps)
  then show ?case
    using keys_put [of ps k v] by (auto simp: image_iff)
qed

lemma distinct_foldl_put:
  "distinct (map fst acc) \<Longrightarrow>
     distinct (map fst (foldl (\<lambda>obj (k, v). put obj k v) acc es))"
  by (induction es arbitrary: acc) (auto simp: distinct_put)

lemma map_of_foldl_put:
  "map_of (foldl (\<lambda>obj (k, v). put obj k v) acc es) = map_of acc ++ map_of (rev es)"
proof (induction es arbitrary: acc)
  case Nil
  show ?case by simp
next
  case (Cons e es)
  obtain k v where e: "e = (k, v)" by (cases e)
  show ?case
    by (simp add: e Cons.IH map_of_put fun_eq_iff map_add_def split: option.split)
qed

lemma distinct_keys: "distinct (map fst (Object_fromEntries es))"
  unfolding Object_fromEntries_def by (rule distinct_foldl_put) simp

lemma map_of_fromEntries: "map_of (Object_fromEntries es) = map_of (rev es)"
  unfolding Object_fromEntries_def by (simp add: map_of_foldl_put)

lemma keys_fromEntries: "fst ` set (Object_fromEntries es) = fst ` set es"
proof -
  have "dom (map_of (Object_fromEntries es)) = dom (map_of (rev es))"
    by (simp add: map_of_fromEntries)
  then show ?thesis by (simp add: dom_map_of_conv_image_fst)
qed

lemma once_if_distinct:
  "distinct (map fst xs) \<Longrightarrow> k \<in> fst ` set xs \<Longrightarrow>
     length (filter (\<lambda>p. fst p = k) xs) = 1"
proof (induction xs)
  case Nil
  then show ?case by simp
next
  case (Cons x xs)
  show ?case
  proof (cases "fst x = k")
    case True
    with Cons.prems have "k \<notin> fst ` set xs" by auto
    then have "filter (\<lambda>p. fst p = k) xs = []"
      by (auto simp: filter_empty_conv)
    with True show ?thesis by simp
  next
    case False
    with Cons show ?thesis by auto
  qed
qed

lemma map_of_rev_last:
  "k \<in> fst ` set es \<Longrightarrow>
     map_of (rev es) k = Some (snd (last (filter (\<lambda>p. fst p = k) es)))"
proof (induction es)
  case Nil
  then show ?case by simp
next
  case (Cons e es)
  show ?case
  proof (cases "k \<in> fst ` set es")
    case True
    then have "filter (\<lambda>p. fst p = k) es \<noteq> []"
      by (auto simp: filter_empty_conv)
    with True Cons.IH show ?thesis
      by (simp add: map_add_def split: option.split)
  next
    case False
    with Cons.prems have k: "fst e = k" by auto
    from False have "filter (\<lambda>p. fst p = k) es = []"
      by (auto simp: filter_empty_conv)
    moreover from False have "map_of (rev es) k = None"
      by (simp add: map_of_eq_None_iff)
    ultimately show ?thesis
      using k by (cases e) (simp add: map_add_def)
  qed
qed

section \<open>Properties of the handlers\<close>

lemma respondJSON_calls:
  "respondJSON request response st object =
     response @
       [WriteHead st
          [(js ''Content-Type'', HString (js ''application/json'')),
           (js ''Content-Length'', HNumber (Buffer_byteLength (JSON_stringify object)))],
        Write (JSON_stringify object), End]"
  by (simp add: respondJSON_def Let_def)

lemma respondJSON_bytes:
  "respondJSON request response st object =
     response @
       [WriteHead st
          [(js ''Content-Type'', HString (js ''application/json'')),
           (js ''Content-Length'',
            HNumber (length (utf8_encode (JSON_stringify object))))],
        Write (JSON_stringify object), End]"
  by (simp add: respondJSON_calls length_utf8_encode)

text \<open>Each JSON handler, as one call of \<open>respondJSON\<close>.\<close>

lemma success_responds:
  "success request response =
     Inr (respondJSON request response 200
       [(js ''message'', js ''This is a successful response'')])"
  by (simp add: success_def)

lemma notFound_responds:
  "notFound request response =
     Inr (respondJSON request response 404
       [(js ''message'', js ''The page you are looking for was not found.''),
        (js ''id'', js ''notFound'')])"
  by (simp add: notFound_def)

lemma Get_valid:
  "Get q (js ''valid'') =
     (case map_of q (js ''valid'') of None \<Rightarrow> Undefined | Some v \<Rightarrow> Val v)"
  by (simp add: Get_def Object_prototype_keys_def js_def split: option.split)

text \<open>The test of \<open>badRequest\<close> passes for one value of \<open>valid\<close> only.\<close>

lemma valid_test:
  "(falsy (Get q (js ''valid'')) \<or> Get q (js ''valid'') \<noteq> Val (js ''true''))
     = (map_of q (js ''valid'') \<noteq> Some (js ''true''))"
  unfolding Get_valid by (auto simp: js_def split: option.splits)

lemma badRequest_responds:
  assumes "query request = Some q"
  shows "badRequest request response =
     Inr (if map_of q (js ''valid'') = Some (js ''true'')
          then respondJSON request response 200
                 [(js ''message'', js ''This request has the required parameters'')]
          else respondJSON request response 400
                 [(js ''message'', js ''Missing valid query parameter set to true''),
                  (js ''id'', js ''badRequest'')])"
proof -
  have p: "put (put [(js ''message'', js ''This request has the required parameters'')]
             (js ''message'') (js ''Missing valid query parameter set to true''))
             (js ''id'') (js ''badRequest'') =
           [(js ''message'', js ''Missing valid query parameter set to true''),
            (js ''id'', js ''badRequest'')]"
    by (simp add: js_def)
  show ?thesis
    unfolding badRequest_def Let_def assms option.case valid_test p by simp
qed

lemma success_calls:
  \<open>success request response =
     Inr (response @
       [WriteHead 200
          [(js ''Content-Type'', HString (js ''application/json'')),
           (js ''Content-Length'', HNumber 43)],
        Write (js ''{"message":"This is a successful response"}''), End])\<close>
  unfolding success_def Let_def respondJSON_calls text_success
  by (simp add: js_def)

lemma notFound_calls:
  \<open>notFound request response =
     Inr (response @
       [WriteHead 404
          [(js ''Content-Type'', HString (js ''application/json'')),
           (js ''Content-Length'', HNumber 73)],
        Write (js ''{"message":"The page you are looking for was not found.","id":"notFound"}''),
        End])\<close>
  unfolding notFound_def Let_def respondJSON_calls text_not_found
  by (simp add: js_def)

lemma badRequest_calls:
  assumes "query request = Some q"
  shows \<open>badRequest request response =
     Inr (response @
       (if map_of q (js ''valid'') = Some (js ''true'') then
          [WriteHead 200
             [(js ''Content-Type'', HString (js ''application/json'')),
              (js ''Content-Length'', HNumber 54)],
           Write (js ''{"message":"This request has the required parameters"}''), End]
        else
          [WriteHead 400
             [(js ''Content-Type'', HString (js ''application/json'')),
              (js ''Content-Length'', HNumber 73)],
           Write
             (js ''{"message":"Missing valid query parameter set to true","id":"badRequest"}''),
           End]))\<close>
proof -
  have p: "put (put [(js ''message'', js ''This request has the required parameters'')]
             (js ''message'') (js ''Missing valid query parameter set to true''))
             (js ''id'') (js ''badRequest'') =
           [(js ''message'', js ''Missing valid query parameter set to true''),
            (js ''id'', js ''badRequest'')]"
    by (simp add: js_def)
  show ?thesis
    unfolding badRequest_def Let_def assms option.case valid_test p respondJSON_calls
      text_has_parameters text_missing_valid
    by (simp add: js_def)
qed

lemma invoke_simps:
  "invoke g GetIndex = g" "invoke g Success = success"
  "invoke g BadRequest = badRequest" "invoke g NotFound = notFound"
  by (simp_all add: invoke_def)

lemma json_handler_responds:
  assumes "h \<noteq> GetIndex" and "query request = Some q"
  shows "\<exists>st obj.
       invoke getIndex h request response = Inr (respondJSON request response st obj)
     \<and> (st = 200 \<or> st = 400 \<or> st = 404)
     \<and> JSON_parse (JSON_stringify obj) = Some obj
     \<and> js ''message'' \<in> fst ` set obj"
proof (cases h)
  case GetIndex
  with assms show ?thesis by simp
next
  case Success
  show ?thesis
    unfolding Success invoke_simps success_responds
    by (intro exI [of _ 200] exI [of _ "[(js ''message'', js ''This is a successful response'')]"])
      (simp add: text_success parse_success)
next
  case BadRequest
  show ?thesis
  proof (cases "map_of q (js ''valid'') = Some (js ''true'')")
    case True
    show ?thesis
      unfolding BadRequest invoke_simps badRequest_responds [OF assms(2)]
      by (intro exI [of _ 200]
          exI [of _ "[(js ''message'', js ''This request has the required parameters'')]"])
        (simp add: True text_has_parameters parse_has_parameters)
  next
    case False
    show ?thesis
      unfolding BadRequest invoke_simps badRequest_responds [OF assms(2)]
      by (intro exI [of _ 400]
          exI [of _ "[(js ''message'', js ''Missing valid query parameter set to true''),
                      (js ''id'', js ''badRequest'')]"])
        (simp add: False text_missing_valid parse_missing_valid)
  qed
next
  case NotFound
  show ?thesis
    unfolding NotFound invoke_simps notFound_responds
    by (intro exI [of _ 404]
        exI [of _ "[(js ''message'', js ''The page you are looking for was not found.''),
                    (js ''id'', js ''notFound'')]"])
      (simp add: text_not_found parse_not_found)
qed

lemma invoke_method:
  assumes "\<And>r m resp. getIndex (r\<lparr>request_method := m\<rparr>) resp = getIndex r resp"
  shows "invoke getIndex h (request\<lparr>request_method := m\<rparr>) response
       = invoke getIndex h request response"
  by (cases h)
    (auto simp: invoke_def assms success_def notFound_def badRequest_def respondJSON_def
      Let_def split: option.split)

section \<open>Properties of the dispatcher\<close>

text \<open>
  A path name is empty or begins with a slash, so it is no member of \<open>Object.prototype\<close>
  and not the key \<open>notFound\<close> of the table: the table answers for three path names.
\<close>

lemma pathname_shape: "pathname u = [] \<or> (\<exists>s. pathname u = 0x2F # s)"
  by (cases "path u") (simp_all add: pathname_def js_def)

lemma Get_pathname:
  "Get (urlStruct server_start) (pathname u) =
     (if pathname u = js ''/'' then Val GetIndex
      else if pathname u = js ''/success'' then Val Success
      else if pathname u = js ''/badRequest'' then Val BadRequest
      else Undefined)"
  using pathname_shape [of u]
  by (auto simp: Get_def server_start_def Object_prototype_keys_def js_def)

lemma Get_notFound: "Get (urlStruct server_start) (js ''notFound'') = Val NotFound"
  by (simp add: Get_def server_start_def js_def)

lemma onRequest_routes:
  assumes "parsedUrl parse request = Inr u"
  shows "onRequest parse getIndex server_start request response =
     (invoke getIndex
        (if pathname u = js ''/'' then GetIndex
         else if pathname u = js ''/success'' then Success
         else if pathname u = js ''/badRequest'' then BadRequest
         else NotFound)
        (request\<lparr>query := Some (Object_fromEntries (searchParams u))\<rparr>) response,
      server_start)"
  using assms
  by (simp add: onRequest_def Let_def call_member_def Get_pathname Get_notFound)

text \<open>Each of the three routes and the fall-through, as the call that the dispatcher makes.\<close>

lemma badRequest_routed:
  assumes "parsedUrl parse request = Inr u" and "pathname u = js ''/badRequest''"
  shows "fst (onRequest parse getIndex server_start request response) =
     badRequest (request\<lparr>query := Some (Object_fromEntries (searchParams u))\<rparr>) response"
proof -
  have "js ''/badRequest'' \<noteq> js ''/''" "js ''/badRequest'' \<noteq> js ''/success''"
    by (simp_all add: js_def)
  with assms show ?thesis by (simp add: onRequest_routes invoke_simps)
qed

lemma notFound_routed:
  assumes "parsedUrl parse request = Inr u"
    and "pathname u \<noteq> js ''/''" and "pathname u \<noteq> js ''/success''"
    and "pathname u \<noteq> js ''/badRequest''"
  shows "fst (onRequest parse getIndex server_start request response) =
     notFound (request\<lparr>query := Some (Object_fromEntries (searchParams u))\<rparr>) response"
  using assms by (simp add: onRequest_routes invoke_simps)

lemma success_routed:
  assumes "parsedUrl parse request = Inr u" and "pathname u = js ''/success''"
  shows "fst (onRequest parse getIndex server_start request response) =
     success (request\<lparr>query := Some (Object_fromEntries (searchParams u))\<rparr>) response"
proof -
  have "js ''/success'' \<noteq> js ''/''" by (simp add: js_def)
  with assms show ?thesis by (simp add: onRequest_routes invoke_simps)
qed

lemma onRequest_throws:
  assumes "parsedUrl parse request = Inl e"
  shows "onRequest parse getIndex sv request response = (Inl e, sv)"
  using assms by (simp add: onRequest_def)

text \<open>
  A reference of two slashes and no host makes \<open>onRequest\<close> throw, whatever the parser
  does elsewhere and whatever \<open>getIndex\<close> is: no handler is called.
\<close>

lemma host_missing_throws:
  assumes "host_missing (trim_input (url request))"
  shows "onRequest parse getIndex sv request response = (Inl Invalid_URL, sv)"
proof -
  have "parsedUrl parse request = Inl Invalid_URL"
    using assms by (auto simp: parsedUrl_def URL_new_def Let_def starts_with_def js_def)
  then show ?thesis by (rule onRequest_throws)
qed


text \<open>No function of the program reads the method of the request.\<close>

lemma parsedUrl_method: "parsedUrl parse (request\<lparr>request_method := m\<rparr>) = parsedUrl parse request"
  by (simp add: parsedUrl_def)

lemma call_member_method:
  assumes "\<And>r m resp. getIndex (r\<lparr>request_method := m\<rparr>) resp = getIndex r resp"
  shows "call_member getIndex obj k (request\<lparr>request_method := m\<rparr>) response
       = call_member getIndex obj k request response"
  by (simp add: call_member_def invoke_method [OF assms] split: jsvalue.split)





section \<open>The requests of the examples\<close>

lemma pathname_one_segment: "pathname \<lparr>path = [s], searchParams = ps\<rparr> = 0x2F # s"
  by (simp add: pathname_def js_def)

lemma parsed_success:
  "parsedUrl plain_URL (browser_request ''GET'' ''/success'') =
     Inr \<lparr>path = [js ''success''], searchParams = []\<rparr>"
  by code_simp

lemma parsed_badRequest:
  "parsedUrl plain_URL (browser_request ''GET'' ''/badRequest'') =
     Inr \<lparr>path = [js ''badRequest''], searchParams = []\<rparr>"
  by code_simp

lemma parsed_valid_true:
  "parsedUrl plain_URL (browser_request ''GET'' ''/badRequest?valid=true'') =
     Inr \<lparr>path = [js ''badRequest''], searchParams = [(js ''valid'', js ''true'')]\<rparr>"
  by code_simp

lemma parsed_valid_empty:
  "parsedUrl plain_URL (browser_request ''GET'' ''/badRequest?valid='') =
     Inr \<lparr>path = [js ''badRequest''], searchParams = [(js ''valid'', [])]\<rparr>"
  by code_simp

lemma parsed_valid_TRUE:
  "parsedUrl plain_URL (browser_request ''GET'' ''/badRequest?valid=TRUE'') =
     Inr \<lparr>path = [js ''badRequest''], searchParams = [(js ''valid'', js ''TRUE'')]\<rparr>"
  by code_simp

lemma parsed_valid_twice:
  "parsedUrl plain_URL (browser_request ''GET'' ''/badRequest?valid=true&valid=no'') =
     Inr \<lparr>path = [js ''badRequest''],
          searchParams = [(js ''valid'', js ''true''), (js ''valid'', js ''no'')]\<rparr>"
  by code_simp

lemma parsed_Success:
  "parsedUrl plain_URL (browser_request ''GET'' ''/Success'') =
     Inr \<lparr>path = [js ''Success''], searchParams = []\<rparr>"
  by code_simp

lemma parsed_success_slash:
  "parsedUrl plain_URL (browser_request ''GET'' ''/success/'') =
     Inr \<lparr>path = [js ''success'', js ''''], searchParams = []\<rparr>"
  by code_simp


section \<open>The claims\<close>

text \<open>
  C1. For every request whose path is \<open>/badRequest\<close>: the status is 200 if the query
  object maps \<open>valid\<close> to the string \<open>true\<close>, and otherwise it is 400 and the
  \<open>id\<close> of the body is \<open>badRequest\<close>.
\<close>

theorem badRequest_status_by_valid:
  assumes "parsedUrl parse request = Inr u" and "pathname u = js ''/badRequest''"
  shows "statusCode (fst (onRequest parse getIndex server_start request [])) =
       Some (if map_of (Object_fromEntries (searchParams u)) (js ''valid'') = Some (js ''true'')
             then 200 else 400)
     \<and> (map_of (Object_fromEntries (searchParams u)) (js ''valid'') \<noteq> Some (js ''true'') \<longrightarrow>
          field (js ''id'') (fst (onRequest parse getIndex server_start request []))
            = Some (js ''badRequest''))"
proof -
  have q: "query (request\<lparr>query := Some (Object_fromEntries (searchParams u))\<rparr>) =
      Some (Object_fromEntries (searchParams u))"
    by simp
  show ?thesis
    unfolding badRequest_routed [OF assms] badRequest_calls [OF q]
    by (simp add: statusCode_sent field_sent parse_missing_valid js_eq_iff)
qed

text \<open>
  C1 at \<open>/badRequest?valid=true\<close>, answered with 200, and at \<open>/badRequest\<close> (the
  request of the page), \<open>/badRequest?valid=\<close> and \<open>/badRequest?valid=TRUE\<close>, each
  answered with 400 and the \<open>id\<close>.
\<close>

theorem badRequest_status_by_valid_witness:
  "parsedUrl plain_URL (browser_request ''GET'' ''/badRequest?valid=true'') =
     Inr \<lparr>path = [js ''badRequest''], searchParams = [(js ''valid'', js ''true'')]\<rparr>
   \<and> pathname \<lparr>path = [js ''badRequest''], searchParams = [(js ''valid'', js ''true'')]\<rparr>
       = js ''/badRequest''
   \<and> statusCode (fst (onRequest plain_URL (static_page []) server_start
         (browser_request ''GET'' ''/badRequest?valid=true'') [])) = Some 200
   \<and> parsedUrl plain_URL (browser_request ''GET'' ''/badRequest'') =
     Inr \<lparr>path = [js ''badRequest''], searchParams = []\<rparr>
   \<and> statusCode (fst (onRequest plain_URL (static_page []) server_start
         (browser_request ''GET'' ''/badRequest'') [])) = Some 400
   \<and> field (js ''id'') (fst (onRequest plain_URL (static_page []) server_start
         (browser_request ''GET'' ''/badRequest'') [])) = Some (js ''badRequest'')
   \<and> parsedUrl plain_URL (browser_request ''GET'' ''/badRequest?valid='') =
     Inr \<lparr>path = [js ''badRequest''], searchParams = [(js ''valid'', [])]\<rparr>
   \<and> statusCode (fst (onRequest plain_URL (static_page []) server_start
         (browser_request ''GET'' ''/badRequest?valid='') [])) = Some 400
   \<and> field (js ''id'') (fst (onRequest plain_URL (static_page []) server_start
         (browser_request ''GET'' ''/badRequest?valid='') [])) = Some (js ''badRequest'')
   \<and> parsedUrl plain_URL (browser_request ''GET'' ''/badRequest?valid=TRUE'') =
     Inr \<lparr>path = [js ''badRequest''], searchParams = [(js ''valid'', js ''TRUE'')]\<rparr>
   \<and> statusCode (fst (onRequest plain_URL (static_page []) server_start
         (browser_request ''GET'' ''/badRequest?valid=TRUE'') [])) = Some 400
   \<and> field (js ''id'') (fst (onRequest plain_URL (static_page []) server_start
         (browser_request ''GET'' ''/badRequest?valid=TRUE'') [])) = Some (js ''badRequest'')"
proof -
  have p: "pathname \<lparr>path = [js ''badRequest''], searchParams = ps\<rparr> = js ''/badRequest''" for ps
    by (simp add: pathname_one_segment js_def)
  have v: "map_of (Object_fromEntries [(js ''valid'', x)]) (js ''valid'') = Some x" for x
    by (simp add: Object_fromEntries_def)
  have e: "map_of (Object_fromEntries ([] :: (jsstring \<times> jsstring) list)) (js ''valid'')
      \<noteq> Some (js ''true'')"
    by (simp add: Object_fromEntries_def)
  have n: "[] \<noteq> js ''true''" "js ''TRUE'' \<noteq> js ''true''"
    by (simp_all add: js_def)
  have a: "statusCode (fst (onRequest plain_URL (static_page []) server_start
         (browser_request ''GET'' ''/badRequest?valid=true'') [])) = Some 200"
    using badRequest_status_by_valid [OF parsed_valid_true p, of "static_page []"]
    by (simp add: v)
  have b: "statusCode (fst (onRequest plain_URL (static_page []) server_start
         (browser_request ''GET'' ''/badRequest'') [])) = Some 400
     \<and> field (js ''id'') (fst (onRequest plain_URL (static_page []) server_start
         (browser_request ''GET'' ''/badRequest'') [])) = Some (js ''badRequest'')"
    using badRequest_status_by_valid [OF parsed_badRequest p, of "static_page []"] e
    by simp
  have c: "statusCode (fst (onRequest plain_URL (static_page []) server_start
         (browser_request ''GET'' ''/badRequest?valid='') [])) = Some 400
     \<and> field (js ''id'') (fst (onRequest plain_URL (static_page []) server_start
         (browser_request ''GET'' ''/badRequest?valid='') [])) = Some (js ''badRequest'')"
    using badRequest_status_by_valid [OF parsed_valid_empty p, of "static_page []"] n
    by (simp add: v)
  have d: "statusCode (fst (onRequest plain_URL (static_page []) server_start
         (browser_request ''GET'' ''/badRequest?valid=TRUE'') [])) = Some 400
     \<and> field (js ''id'') (fst (onRequest plain_URL (static_page []) server_start
         (browser_request ''GET'' ''/badRequest?valid=TRUE'') [])) = Some (js ''badRequest'')"
    using badRequest_status_by_valid [OF parsed_valid_TRUE p, of "static_page []"] n
    by (simp add: v)
  show ?thesis
    using a b c d parsed_valid_true parsed_badRequest parsed_valid_empty parsed_valid_TRUE p
    by simp
qed

text \<open>
  C2. For every request whose path is none of \<open>/\<close>, \<open>/success\<close> and
  \<open>/badRequest\<close> the dispatcher calls \<open>notFound\<close>, the status is 404 and the
  \<open>id\<close> of the body is \<open>notFound\<close>. The paths are compared as strings, character
  by character.
\<close>

theorem unmatched_path_not_found:
  assumes "parsedUrl parse request = Inr u"
    and "pathname u \<noteq> js ''/''" and "pathname u \<noteq> js ''/success''"
    and "pathname u \<noteq> js ''/badRequest''"
  shows "fst (onRequest parse getIndex server_start request response) =
       notFound (request\<lparr>query := Some (Object_fromEntries (searchParams u))\<rparr>) response
     \<and> statusCode (fst (onRequest parse getIndex server_start request [])) = Some 404
     \<and> field (js ''id'') (fst (onRequest parse getIndex server_start request []))
         = Some (js ''notFound'')"
  unfolding notFound_routed [OF assms]
  by (simp add: notFound_calls statusCode_sent field_sent parse_not_found js_eq_iff)

text \<open>
  C2 at \<open>/Success\<close> and at \<open>/success/\<close>: an upper case letter or a slash at the end
  makes another path, and both get 404.
\<close>

theorem unmatched_path_not_found_witness:
  "parsedUrl plain_URL (browser_request ''GET'' ''/Success'') =
     Inr \<lparr>path = [js ''Success''], searchParams = []\<rparr>
   \<and> pathname \<lparr>path = [js ''Success''], searchParams = []\<rparr> = js ''/Success''
   \<and> js ''/Success'' \<notin> {js ''/'', js ''/success'', js ''/badRequest''}
   \<and> statusCode (fst (onRequest plain_URL (static_page []) server_start
         (browser_request ''GET'' ''/Success'') [])) = Some 404
   \<and> field (js ''id'') (fst (onRequest plain_URL (static_page []) server_start
         (browser_request ''GET'' ''/Success'') [])) = Some (js ''notFound'')
   \<and> parsedUrl plain_URL (browser_request ''GET'' ''/success/'') =
     Inr \<lparr>path = [js ''success'', js ''''], searchParams = []\<rparr>
   \<and> pathname \<lparr>path = [js ''success'', js ''''], searchParams = []\<rparr> = js ''/success/''
   \<and> js ''/success/'' \<notin> {js ''/'', js ''/success'', js ''/badRequest''}
   \<and> statusCode (fst (onRequest plain_URL (static_page []) server_start
         (browser_request ''GET'' ''/success/'') [])) = Some 404
   \<and> field (js ''id'') (fst (onRequest plain_URL (static_page []) server_start
         (browser_request ''GET'' ''/success/'') [])) = Some (js ''notFound'')"
proof -
  have p1: "pathname \<lparr>path = [js ''Success''], searchParams = []\<rparr> = js ''/Success''"
    by (simp add: pathname_def js_def)
  have p2: "pathname \<lparr>path = [js ''success'', js ''''], searchParams = []\<rparr> = js ''/success/''"
    by (simp add: pathname_def js_def)
  have n1: "js ''/Success'' \<noteq> js ''/''" "js ''/Success'' \<noteq> js ''/success''"
    "js ''/Success'' \<noteq> js ''/badRequest''"
    by (simp_all add: js_def)
  have n2: "js ''/success/'' \<noteq> js ''/''" "js ''/success/'' \<noteq> js ''/success''"
    "js ''/success/'' \<noteq> js ''/badRequest''"
    by (simp_all add: js_def)
  have a: "statusCode (fst (onRequest plain_URL (static_page []) server_start
         (browser_request ''GET'' ''/Success'') [])) = Some 404
     \<and> field (js ''id'') (fst (onRequest plain_URL (static_page []) server_start
         (browser_request ''GET'' ''/Success'') [])) = Some (js ''notFound'')"
    using unmatched_path_not_found [OF parsed_Success, of "static_page []" "[]"] n1
    unfolding p1 by blast
  have b: "statusCode (fst (onRequest plain_URL (static_page []) server_start
         (browser_request ''GET'' ''/success/'') [])) = Some 404
     \<and> field (js ''id'') (fst (onRequest plain_URL (static_page []) server_start
         (browser_request ''GET'' ''/success/'') [])) = Some (js ''notFound'')"
    using unmatched_path_not_found [OF parsed_success_slash, of "static_page []" "[]"] n2
    unfolding p2 by blast
  show ?thesis
    using a b parsed_Success parsed_success_slash p1 p2 n1 n2 by simp
qed

text \<open>
  C3, as amended. For every request whose path is \<open>/success\<close> the response has status
  200 and the \<open>message\<close> of its body is \<open>This is a successful response\<close>, a text that
  ends without a full stop.
\<close>

theorem success_status_and_message:
  assumes "parsedUrl parse request = Inr u" and "pathname u = js ''/success''"
  shows "statusCode (fst (onRequest parse getIndex server_start request [])) = Some 200
     \<and> field (js ''message'') (fst (onRequest parse getIndex server_start request []))
         = Some (js ''This is a successful response'')"
proof -
  have "js ''/success'' \<noteq> js ''/''" by (simp add: js_def)
  with assms have "fst (onRequest parse getIndex server_start request []) =
      success (request\<lparr>query := Some (Object_fromEntries (searchParams u))\<rparr>) []"
    by (simp add: onRequest_routes invoke_simps)
  then show ?thesis
    by (simp add: success_calls field_sent parse_success statusCode_sent)
qed

text \<open>C3: the amended claim at the request that the page sends for its first button.\<close>

theorem success_status_and_message_witness:
  "parsedUrl plain_URL (browser_request ''GET'' ''/success'') =
     Inr \<lparr>path = [js ''success''], searchParams = []\<rparr>
   \<and> pathname \<lparr>path = [js ''success''], searchParams = []\<rparr> = js ''/success''
   \<and> statusCode (fst (onRequest plain_URL (static_page []) server_start
         (browser_request ''GET'' ''/success'') [])) = Some 200
   \<and> field (js ''message'') (fst (onRequest plain_URL (static_page []) server_start
         (browser_request ''GET'' ''/success'') []))
         = Some (js ''This is a successful response'')"
proof -
  have p: "pathname \<lparr>path = [js ''success''], searchParams = []\<rparr> = js ''/success''"
    by (simp add: pathname_def js_def)
  show ?thesis
    using success_status_and_message [OF parsed_success p, of "static_page []"]
      parsed_success p by simp
qed

text \<open>
  C3, as the specification words it: the \<open>message\<close> would be
  \<open>This is a successful response.\<close> with a full stop. The request of the page shows
  that it is not.
\<close>

theorem success_message_counterexample:
  "\<not> (statusCode (fst (onRequest plain_URL (static_page []) server_start
           (browser_request ''GET'' ''/success'') [])) = Some 200
      \<and> field (js ''message'') (fst (onRequest plain_URL (static_page []) server_start
           (browser_request ''GET'' ''/success'') []))
           = Some (js ''This is a successful response.''))"
  by code_simp

text \<open>
  C4. Every response that \<open>respondJSON\<close> writes has the content type
  \<open>application/json\<close>, and its content length is the number of bytes of the UTF-8 form
  of the body, which is the serialised object.
\<close>

theorem content_length_is_byte_length:
  "respondJSON request response st object =
     response @
       [WriteHead st
          [(js ''Content-Type'', HString (js ''application/json'')),
           (js ''Content-Length'',
            HNumber (length (utf8_encode (JSON_stringify object))))],
        Write (JSON_stringify object), End]"
proof -
  have "Buffer_byteLength (JSON_stringify object) =
      length (utf8_encode (JSON_stringify object))"
    by (simp add: length_utf8_encode)
  then show ?thesis
    by (simp add: respondJSON_calls)
qed

text \<open>
  C4 at a message with characters of two, three and four bytes: the body has 22 code
  units and 27 bytes, and the content length is 27.
\<close>

theorem content_length_is_byte_length_witness:
  "length (JSON_stringify
      [(js ''message'', [0x63, 0x61, 0x66, 0xE9, 0x20, 0x20AC, 0xD83D, 0xDE00])]) = 22
   \<and> respondJSON (browser_request ''GET'' ''/success'') [] 200
        [(js ''message'', [0x63, 0x61, 0x66, 0xE9, 0x20, 0x20AC, 0xD83D, 0xDE00])] =
      [WriteHead 200
         [(js ''Content-Type'', HString (js ''application/json'')),
          (js ''Content-Length'', HNumber 27)],
       Write (JSON_stringify
         [(js ''message'', [0x63, 0x61, 0x66, 0xE9, 0x20, 0x20AC, 0xD83D, 0xDE00])]),
       End]"
proof -
  have n: "length (JSON_stringify
      [(js ''message'', [0x63, 0x61, 0x66, 0xE9, 0x20, 0x20AC, 0xD83D, 0xDE00])]) = 22"
    by code_simp
  have b: "length (utf8_encode (JSON_stringify
      [(js ''message'', [0x63, 0x61, 0x66, 0xE9, 0x20, 0x20AC, 0xD83D, 0xDE00])])) = 27"
    by code_simp
  show ?thesis
    using content_length_is_byte_length
      [of "browser_request ''GET'' ''/success''" "[]" 200
        "[(js ''message'', [0x63, 0x61, 0x66, 0xE9, 0x20, 0x20AC, 0xD83D, 0xDE00])]"]
    unfolding b using n by simp
qed

text \<open>
  C5, as amended. For every request whose URL the constructor accepts and whose path is
  not \<open>/\<close>, the dispatcher throws nothing and writes one response: a status of 200, 400
  or 404, the JSON content type, the content length of the body in bytes, and a body that
  is the JSON text of an object with a \<open>message\<close>.
\<close>

theorem accepted_url_gets_json_response:
  assumes "parsedUrl parse request = Inr u" and "pathname u \<noteq> js ''/''"
  shows "\<exists>st obj.
       fst (onRequest parse getIndex server_start request response) =
         Inr (response @
           [WriteHead st
              [(js ''Content-Type'', HString (js ''application/json'')),
               (js ''Content-Length'',
                HNumber (length (utf8_encode (JSON_stringify obj))))],
            Write (JSON_stringify obj), End])
     \<and> (st = 200 \<or> st = 400 \<or> st = 404)
     \<and> JSON_parse (JSON_stringify obj) = Some obj
     \<and> js ''message'' \<in> fst ` set obj"
proof -
  let ?h = "if pathname u = js ''/success'' then Success
            else if pathname u = js ''/badRequest'' then BadRequest else NotFound"
  let ?r = "request\<lparr>query := Some (Object_fromEntries (searchParams u))\<rparr>"
  have r: "fst (onRequest parse getIndex server_start request response) =
      invoke getIndex ?h ?r response"
    using assms(2) by (simp add: onRequest_routes [OF assms(1)])
  have h: "?h \<noteq> GetIndex" by simp
  have q: "query ?r = Some (Object_fromEntries (searchParams u))" by simp
  show ?thesis
    unfolding r using json_handler_responds [OF h q, of getIndex response]
    by (simp only: respondJSON_bytes)
qed

text \<open>C5, as amended, at \<open>/badRequest\<close>, the request of the page.\<close>

theorem accepted_url_gets_json_response_witness:
  "parsedUrl plain_URL (browser_request ''GET'' ''/badRequest'') =
     Inr \<lparr>path = [js ''badRequest''], searchParams = []\<rparr>
   \<and> pathname \<lparr>path = [js ''badRequest''], searchParams = []\<rparr> \<noteq> js ''/''
   \<and> (\<exists>st obj.
       fst (onRequest plain_URL (static_page []) server_start
         (browser_request ''GET'' ''/badRequest'') []) =
         Inr [WriteHead st
                [(js ''Content-Type'', HString (js ''application/json'')),
                 (js ''Content-Length'',
                  HNumber (length (utf8_encode (JSON_stringify obj))))],
              Write (JSON_stringify obj), End]
     \<and> (st = 200 \<or> st = 400 \<or> st = 404)
     \<and> JSON_parse (JSON_stringify obj) = Some obj
     \<and> js ''message'' \<in> fst ` set obj)"
proof -
  have n: "pathname \<lparr>path = [js ''badRequest''], searchParams = []\<rparr> \<noteq> js ''/''"
    by (simp add: pathname_one_segment js_def)
  show ?thesis
    using accepted_url_gets_json_response [OF parsed_badRequest n, of "static_page []" "[]"]
      parsed_badRequest n
    by simp
qed

text \<open>
  C5, as the specification words it: no request would make the dispatcher throw. The
  request line \<open>GET // HTTP/1.1\<close> does: \<open>new URL\<close> throws a \<open>TypeError\<close>, which
  nothing in the program catches.
\<close>

theorem double_slash_throws:
  "fst (onRequest plain_URL (static_page []) server_start (browser_request ''GET'' ''//'') [])
     = Inl Invalid_URL"
  by code_simp

text \<open>
  C6. For every request whose query has the key \<open>k\<close>, once or repeated: the handler is
  called with the request whose \<open>query\<close> is the object made from the pairs of the
  query, this object has \<open>k\<close> exactly once, and the value of \<open>k\<close> is the value of the
  last pair with that key.
\<close>

theorem repeated_key_last_value_wins:
  assumes "parsedUrl parse request = Inr u" and "k \<in> fst ` set (searchParams u)"
  shows "(\<exists>h. fst (onRequest parse getIndex server_start request response) =
           invoke getIndex h
             (request\<lparr>query := Some (Object_fromEntries (searchParams u))\<rparr>) response)
     \<and> length (filter (\<lambda>p. fst p = k) (Object_fromEntries (searchParams u))) = 1
     \<and> map_of (Object_fromEntries (searchParams u)) k =
         Some (snd (last (filter (\<lambda>p. fst p = k) (searchParams u))))"
proof -
  have "k \<in> fst ` set (Object_fromEntries (searchParams u))"
    using assms(2) by (simp add: keys_fromEntries)
  then have "length (filter (\<lambda>p. fst p = k) (Object_fromEntries (searchParams u))) = 1"
    by (rule once_if_distinct [OF distinct_keys])
  moreover have "map_of (Object_fromEntries (searchParams u)) k =
      Some (snd (last (filter (\<lambda>p. fst p = k) (searchParams u))))"
    using assms(2) by (simp add: map_of_fromEntries map_of_rev_last)
  moreover have "\<exists>h. fst (onRequest parse getIndex server_start request response) =
      invoke getIndex h
        (request\<lparr>query := Some (Object_fromEntries (searchParams u))\<rparr>) response"
    unfolding onRequest_routes [OF assms(1)] fst_conv by (rule exI) (rule refl)
  ultimately show ?thesis by blast
qed

text \<open>
  C6 at \<open>/badRequest?valid=true&valid=no\<close>: one \<open>valid\<close> in the query object, with
  the value \<open>no\<close>, so that the answer is 400.
\<close>

theorem repeated_key_last_value_wins_witness:
  "parsedUrl plain_URL (browser_request ''GET'' ''/badRequest?valid=true&valid=no'') =
     Inr \<lparr>path = [js ''badRequest''],
          searchParams = [(js ''valid'', js ''true''), (js ''valid'', js ''no'')]\<rparr>
   \<and> js ''valid'' \<in> fst ` set [(js ''valid'', js ''true''), (js ''valid'', js ''no'')]
   \<and> length (filter (\<lambda>p. fst p = js ''valid'')
         (Object_fromEntries [(js ''valid'', js ''true''), (js ''valid'', js ''no'')])) = 1
   \<and> map_of (Object_fromEntries [(js ''valid'', js ''true''), (js ''valid'', js ''no'')])
         (js ''valid'') = Some (js ''no'')
   \<and> statusCode (fst (onRequest plain_URL (static_page []) server_start
         (browser_request ''GET'' ''/badRequest?valid=true&valid=no'') [])) = Some 400"
proof -
  have s: "statusCode (fst (onRequest plain_URL (static_page []) server_start
         (browser_request ''GET'' ''/badRequest?valid=true&valid=no'') [])) = Some 400"
    by code_simp
  have k: "js ''valid'' \<in> fst ` set (searchParams
      \<lparr>path = [js ''badRequest''],
       searchParams = [(js ''valid'', js ''true''), (js ''valid'', js ''no'')]\<rparr>)"
    by simp
  show ?thesis
    using repeated_key_last_value_wins [OF parsed_valid_twice k, of "static_page []" "[]"]
      parsed_valid_twice s
    by simp
qed

text \<open>
  C7, as amended. For every request whose URL the constructor accepts, the outcome of the
  dispatcher is the outcome of one call of one handler, the one of the route or
  \<open>notFound\<close>, on the response as it was: the dispatcher adds no call of its own. When
  the handler is one of the three JSON handlers, it adds one \<open>writeHead\<close>, one
  \<open>write\<close> and one \<open>end\<close>.
\<close>

theorem one_handler_one_response:
  assumes "parsedUrl parse request = Inr u"
  shows "fst (onRequest parse getIndex server_start request response) =
       invoke getIndex
         (if pathname u = js ''/'' then GetIndex
          else if pathname u = js ''/success'' then Success
          else if pathname u = js ''/badRequest'' then BadRequest
          else NotFound)
         (request\<lparr>query := Some (Object_fromEntries (searchParams u))\<rparr>) response
     \<and> (pathname u \<noteq> js ''/'' \<longrightarrow>
          (\<exists>st headers content.
             fst (onRequest parse getIndex server_start request response) =
               Inr (response @ [WriteHead st headers, Write content, End])))"
proof -
  have "\<exists>st headers content.
      fst (onRequest parse getIndex server_start request response) =
        Inr (response @ [WriteHead st headers, Write content, End])"
    if "pathname u \<noteq> js ''/''"
  proof -
    let ?h = "if pathname u = js ''/success'' then Success
              else if pathname u = js ''/badRequest'' then BadRequest else NotFound"
    let ?r = "request\<lparr>query := Some (Object_fromEntries (searchParams u))\<rparr>"
    have r: "fst (onRequest parse getIndex server_start request response) =
        invoke getIndex ?h ?r response"
      using that by (simp add: onRequest_routes [OF assms])
    have h: "?h \<noteq> GetIndex" by simp
    have q: "query ?r = Some (Object_fromEntries (searchParams u))" by simp
    show ?thesis
      unfolding r using json_handler_responds [OF h q, of getIndex response]
      by (auto simp: respondJSON_calls)
  qed
  then show ?thesis
    by (simp add: onRequest_routes [OF assms])
qed

text \<open>C7, as amended, at \<open>/success\<close>.\<close>

theorem one_handler_one_response_witness:
  "parsedUrl plain_URL (browser_request ''GET'' ''/success'') =
     Inr \<lparr>path = [js ''success''], searchParams = []\<rparr>
   \<and> fst (onRequest plain_URL (static_page []) server_start
         (browser_request ''GET'' ''/success'') []) =
       success ((browser_request ''GET'' ''/success'')\<lparr>query := Some []\<rparr>) []
   \<and> (\<exists>st headers content.
         fst (onRequest plain_URL (static_page []) server_start
           (browser_request ''GET'' ''/success'') []) =
         Inr [WriteHead st headers, Write content, End])"
proof -
  have p: "pathname \<lparr>path = [js ''success''], searchParams = []\<rparr> = js ''/success''"
    by (simp add: pathname_one_segment js_def)
  have n: "js ''/success'' \<noteq> js ''/''"
    by (simp add: js_eq_iff)
  have a: "fst (onRequest plain_URL (static_page []) server_start
         (browser_request ''GET'' ''/success'') []) =
       success ((browser_request ''GET'' ''/success'')\<lparr>query := Some []\<rparr>) []"
    using one_handler_one_response [OF parsed_success, of "static_page []" "[]"] n
    by (simp add: p invoke_simps Object_fromEntries_def)
  have b: "\<exists>st headers content.
         fst (onRequest plain_URL (static_page []) server_start
           (browser_request ''GET'' ''/success'') []) =
         Inr [WriteHead st headers, Write content, End]"
    using one_handler_one_response [OF parsed_success, of "static_page []" "[]"] n
    unfolding p append_Nil by blast
  show ?thesis
    using parsed_success a b by blast
qed

text \<open>
  C7, as the specification words it: every request would reach exactly one handler, which
  sends one response. The request line \<open>GET //?valid=true HTTP/1.1\<close> reaches none:
  the outcome is the error, and no response is sent.
\<close>

theorem rejected_url_reaches_no_handler:
  "onRequest plain_URL (static_page []) server_start
      (browser_request ''GET'' ''//?valid=true'') []
     = (Inl Invalid_URL, server_start)
   \<and> sent (fst (onRequest plain_URL (static_page []) server_start
      (browser_request ''GET'' ''//?valid=true'') [])) = None"
  by code_simp




text \<open>
  C9. Two requests that differ in the method only get the same outcome, provided that
  \<open>getIndex\<close>, the handler outside the sources, does not read the method either.
\<close>

theorem response_independent_of_method:
  assumes "\<And>r m resp. getIndex (r\<lparr>request_method := m\<rparr>) resp = getIndex r resp"
  shows "onRequest parse getIndex sv (request\<lparr>request_method := m1\<rparr>) response
       = onRequest parse getIndex sv (request\<lparr>request_method := m2\<rparr>) response"
proof -
  have "onRequest parse getIndex sv (request\<lparr>request_method := m\<rparr>) response
      = onRequest parse getIndex sv request response" for m
  proof -
    have "request\<lparr>request_method := m, query := q\<rparr> =
        request\<lparr>query := q\<rparr>\<lparr>request_method := m\<rparr>" for q
      by simp
    then show ?thesis
      unfolding onRequest_def parsedUrl_method Let_def
      by (simp only: call_member_method [OF assms])
  qed
  then show ?thesis by simp
qed

text \<open>C9 at \<open>/badRequest?valid=true\<close>, sent with \<open>POST\<close> and with \<open>DELETE\<close>.\<close>

theorem response_independent_of_method_witness:
  "onRequest plain_URL (static_page []) server_start
     ((browser_request ''GET'' ''/badRequest?valid=true'')\<lparr>request_method := js ''POST''\<rparr>) []
   = onRequest plain_URL (static_page []) server_start
     ((browser_request ''GET'' ''/badRequest?valid=true'')\<lparr>request_method := js ''DELETE''\<rparr>) []"
proof -
  have g: "static_page [] (r\<lparr>request_method := m\<rparr>) resp = static_page [] r resp" for r m resp
    by (simp add: static_page_def)
  show ?thesis
    by (rule response_independent_of_method [of "static_page []", OF g])
qed

text \<open>
  C10. For every request that a JSON handler answers, the body has an \<open>id\<close> exactly
  when the status is 400 or 404; and the answer 200 to \<open>/badRequest\<close> with \<open>valid\<close>
  equal to \<open>true\<close> has the field \<open>message\<close> and no other.
\<close>

theorem id_field_iff_error_status:
  assumes "parsedUrl parse request = Inr u" and "pathname u \<noteq> js ''/''"
  shows "\<exists>st obj.
       statusCode (fst (onRequest parse getIndex server_start request [])) = Some st
     \<and> payload (fst (onRequest parse getIndex server_start request [])) = Some obj
     \<and> (js ''id'' \<in> fst ` set obj \<longleftrightarrow> st = 400 \<or> st = 404)
     \<and> (pathname u = js ''/badRequest''
          \<and> map_of (Object_fromEntries (searchParams u)) (js ''valid'') = Some (js ''true'')
          \<longrightarrow> st = 200 \<and> map fst obj = [js ''message''])"
proof -
  have q: "query (request\<lparr>query := Some (Object_fromEntries (searchParams u))\<rparr>) =
      Some (Object_fromEntries (searchParams u))"
    by simp
  consider (s) "pathname u = js ''/success''" | (b) "pathname u = js ''/badRequest''"
    | (n) "pathname u \<noteq> js ''/success''" "pathname u \<noteq> js ''/badRequest''"
    by blast
  then show ?thesis
  proof cases
    case s
    show ?thesis
      unfolding success_routed [OF assms(1) s] success_calls
      by (simp add: s statusCode_sent payload_sent parse_success js_eq_iff)
  next
    case b
    show ?thesis
      unfolding badRequest_routed [OF assms(1) b] badRequest_calls [OF q]
      by (simp add: statusCode_sent payload_sent parse_missing_valid parse_has_parameters
          js_eq_iff)
  next
    case n
    show ?thesis
      unfolding notFound_routed [OF assms n] notFound_calls
      by (simp add: n statusCode_sent payload_sent parse_not_found js_eq_iff)
  qed
qed

text \<open>C10 at \<open>/badRequest?valid=true\<close>: status 200, one field, no \<open>id\<close>.\<close>

theorem id_field_iff_error_status_witness:
  "parsedUrl plain_URL (browser_request ''GET'' ''/badRequest?valid=true'') =
     Inr \<lparr>path = [js ''badRequest''], searchParams = [(js ''valid'', js ''true'')]\<rparr>
   \<and> pathname \<lparr>path = [js ''badRequest''], searchParams = [(js ''valid'', js ''true'')]\<rparr>
       = js ''/badRequest''
   \<and> js ''/badRequest'' \<noteq> js ''/''
   \<and> map_of (Object_fromEntries [(js ''valid'', js ''true'')]) (js ''valid'')
       = Some (js ''true'')
   \<and> (\<exists>obj.
        statusCode (fst (onRequest plain_URL (static_page []) server_start
          (browser_request ''GET'' ''/badRequest?valid=true'') [])) = Some 200
      \<and> payload (fst (onRequest plain_URL (static_page []) server_start
          (browser_request ''GET'' ''/badRequest?valid=true'') [])) = Some obj
      \<and> js ''id'' \<notin> fst ` set obj
      \<and> map fst obj = [js ''message''])"
proof -
  have p: "pathname \<lparr>path = [js ''badRequest''], searchParams = [(js ''valid'', js ''true'')]\<rparr>
      = js ''/badRequest''"
    by (simp add: pathname_one_segment js_def)
  have n: "js ''/badRequest'' \<noteq> js ''/''"
    by (simp add: js_eq_iff)
  have t: "map_of (Object_fromEntries [(js ''valid'', js ''true'')]) (js ''valid'')
      = Some (js ''true'')"
    by (simp add: Object_fromEntries_def)
  have n': "pathname \<lparr>path = [js ''badRequest''],
      searchParams = [(js ''valid'', js ''true'')]\<rparr> \<noteq> js ''/''"
    unfolding p by (rule n)
  show ?thesis
    using id_field_iff_error_status [OF parsed_valid_true n', of "static_page []"]
      parsed_valid_true p n t
    by auto
qed

end
